theory Spec2Isabelle
  imports Main "HOL-Library.Finite_Map" "HOL-Library.Char_ord" "HOL-Library.List_Lexorder"
begin

section \<open>Library functions used by \<^verbatim>\<open>epub.go\<close>\<close>

text \<open>
  Go strings are byte sequences; they are modelled as \<^typ>\<open>string\<close> (a list of 8-bit
  characters). The three library calls of \<^verbatim>\<open>epub.go\<close> are written out after the Go
  standard library, for a Unix target (path separator \<^verbatim>\<open>/\<close>, no volume names), which is
  the platform of the repository's examples (\<^verbatim>\<open>../img/go-gopher.png\<close>).
\<close>

subsection \<open>\<^verbatim>\<open>fmt.Sprintf\<close> with the verb \<^verbatim>\<open>%04d\<close>\<close>

text \<open>
  \<^verbatim>\<open>%04d\<close> prints an integer in decimal, padded on the left with zeros to a width of at
  least four. Its argument in \<^verbatim>\<open>epub.go\<close> is \<^verbatim>\<open>len(m)+1\<close>, a positive \<^verbatim>\<open>int\<close>; the
  length of a Go map never reaches the top of the \<^verbatim>\<open>int\<close> range, so the argument is a
  natural number here.
\<close>

definition digit_char :: "nat \<Rightarrow> char" where
  "digit_char d = ''0123456789'' ! d"

fun decimal :: "nat \<Rightarrow> string" where
  "decimal n = (if n < 10 then [digit_char n] else decimal (n div 10) @ [digit_char (n mod 10)])"

declare decimal.simps [simp del]

definition fmt04d :: "nat \<Rightarrow> string" where
  "fmt04d n = replicate (4 - length (decimal n)) (CHR ''0'') @ decimal n"

subsection \<open>\<^verbatim>\<open>filepath.Ext\<close>\<close>

text \<open>
  \<^verbatim>\<open>
  func Ext(path string) string {
      for i := len(path) - 1; i >= 0 && !os.IsPathSeparator(path[i]); i-- {
          if path[i] == '.' {
              return path[i:]
          }
      }
      return ""
  }
  \<close>
  \<open>ext_scan\<close> is the loop: its first argument holds the bytes \<open>path[0..i]\<close> in reverse
  (so its head is \<open>path[i]\<close>), its second the bytes after index \<open>i\<close>.
\<close>

fun ext_scan :: "string \<Rightarrow> string \<Rightarrow> string" where
  "ext_scan [] suffix = []"
| "ext_scan (c # front) suffix =
     (if c = CHR ''/'' then []
      else if c = CHR ''.'' then c # suffix
      else ext_scan front (c # suffix))"

definition Ext :: "string \<Rightarrow> string" where
  "Ext path = ext_scan (rev path) []"

subsection \<open>\<^verbatim>\<open>filepath.Join\<close> and \<^verbatim>\<open>filepath.Clean\<close>\<close>

text \<open>
  \<^verbatim>\<open>filepath.Join\<close> drops leading empty elements, joins the rest with the separator and
  returns the \<^verbatim>\<open>Clean\<close> of the result. \<^verbatim>\<open>Clean\<close> reads the path byte by byte (index
  \<^verbatim>\<open>r\<close>) and writes a buffer \<open>out\<close> (of length \<^verbatim>\<open>out.w\<close>); \<open>dotdot\<close> is the length of the
  buffer's prefix that a \<^verbatim>\<open>..\<close> element may not remove:
  \<^verbatim>\<open>
  if path == "" { return "." }
  rooted := os.IsPathSeparator(path[0])
  n := len(path)
  r, dotdot := 0, 0
  if rooted { out.append(Separator); r, dotdot = 1, 1 }
  for r < n {
      switch {
      case os.IsPathSeparator(path[r]):
          r++
      case path[r] == '.' && (r+1 == n || os.IsPathSeparator(path[r+1])):
          r++
      case path[r] == '.' && path[r+1] == '.' && (r+2 == n || os.IsPathSeparator(path[r+2])):
          r += 2
          switch {
          case out.w > dotdot:
              out.w--
              for out.w > dotdot && !os.IsPathSeparator(out.index(out.w)) { out.w-- }
          case !rooted:
              if out.w > 0 { out.append(Separator) }
              out.append('.'); out.append('.')
              dotdot = out.w
          }
      default:
          if rooted && out.w != 1 || !rooted && out.w != 0 { out.append(Separator) }
          for ; r < n && !os.IsPathSeparator(path[r]); r++ { out.append(path[r]) }
      }
  }
  if out.w == 0 { out.append('.') }
  return out.string()
  \<close>
  \<open>backtrack\<close> is the inner loop of the \<^verbatim>\<open>..\<close> case, started after the first
  decrement, and gives the new \<^verbatim>\<open>out.w\<close>; \<open>clean_loop\<close> is the loop \<^verbatim>\<open>for r < n\<close>, with
  the unread bytes \<open>path[r..]\<close> as its argument; \<open>at_element_end\<close> is the test
  \<^verbatim>\<open>r == n || os.IsPathSeparator(path[r])\<close> on the unread bytes.
\<close>

fun backtrack :: "string \<Rightarrow> nat \<Rightarrow> nat \<Rightarrow> nat" where
  "backtrack out dotdot w =
     (if w > dotdot \<and> out ! w \<noteq> CHR ''/'' then backtrack out dotdot (w - 1) else w)"

declare backtrack.simps [simp del]

definition at_element_end :: "string \<Rightarrow> bool" where
  "at_element_end rest = (case rest of [] \<Rightarrow> True | c # _ \<Rightarrow> c = CHR ''/'')"

function clean_loop :: "bool \<Rightarrow> string \<Rightarrow> string \<Rightarrow> nat \<Rightarrow> string" where
  "clean_loop rooted [] out dotdot = out"
| "clean_loop rooted (c # rest) out dotdot =
     (if c = CHR ''/'' then clean_loop rooted rest out dotdot
      else if c = CHR ''.'' \<and> at_element_end rest then clean_loop rooted rest out dotdot
      else if c = CHR ''.'' \<and> take 1 rest = ''.'' \<and> at_element_end (drop 1 rest) then
        (if length out > dotdot then
           clean_loop rooted (drop 1 rest) (take (backtrack out dotdot (length out - 1)) out) dotdot
         else if \<not> rooted then
           (let out' = (if length out > 0 then out @ ''/'' else out) @ ''..''
            in clean_loop rooted (drop 1 rest) out' (length out'))
         else clean_loop rooted (drop 1 rest) out dotdot)
      else
        (let out' = (if rooted \<and> length out \<noteq> 1 \<or> \<not> rooted \<and> length out \<noteq> 0
                     then out @ ''/'' else out)
         in clean_loop rooted (dropWhile (\<lambda>x. x \<noteq> CHR ''/'') (c # rest))
              (out' @ takeWhile (\<lambda>x. x \<noteq> CHR ''/'') (c # rest)) dotdot))"
  by pat_completeness auto
termination
proof (relation "measure (\<lambda>(rooted, path, out, dotdot). length path)")
  show "wf (measure (\<lambda>(rooted, path, out, dotdot). length path))" by simp
qed (auto intro: le_imp_less_Suc length_dropWhile_le)

definition Clean :: "string \<Rightarrow> string" where
  "Clean path =
     (if path = [] then ''.''
      else
        (let rooted = (hd path = CHR ''/'');
             out = (if rooted then clean_loop True (tl path) ''/'' 1
                    else clean_loop False path [] 0)
         in if out = [] then ''.'' else out))"

fun join_sep :: "string list \<Rightarrow> string" where
  "join_sep [] = []"
| "join_sep [e] = e"
| "join_sep (e # es) = e @ ''/'' @ join_sep es"

fun Join :: "string list \<Rightarrow> string" where
  "Join [] = []"
| "Join (e # es) = (if e \<noteq> [] then Clean (join_sep (e # es)) else Join es)"

section \<open>The data model of \<^verbatim>\<open>epub.go\<close>\<close>

text \<open>\<^verbatim>\<open>ErrFilenameAlreadyUsed\<close> is the only error value of the package.\<close>

datatype error = ErrFilenameAlreadyUsed

text \<open>
  Modelled from the spec: the types \<^verbatim>\<open>xhtml\<close>, \<^verbatim>\<open>pkg\<close> and \<^verbatim>\<open>toc\<close>, their constructors
  \<^verbatim>\<open>newXhtml\<close>, \<^verbatim>\<open>newPackage\<close>, \<^verbatim>\<open>newToc\<close> and their setters are declared outside
  \<^verbatim>\<open>epub.go\<close>. The spec has a section as a minimal document shell carrying a title and the
  body content, the package document as carrying the unique identifier, title, author and
  language as metadata, and the toc metadata as carrying the title and the unique
  identifier. Each is a record of exactly these values, a setter stores its argument in the
  field of its name, and a constructor leaves every string the setters fill empty.
\<close>

record xhtml =
  xhtml_title :: string
  xhtml_body :: string

definition newXhtml :: "string \<Rightarrow> xhtml" where
  "newXhtml content = \<lparr>xhtml_title = [], xhtml_body = content\<rparr>"

definition xhtml_setTitle :: "string \<Rightarrow> xhtml \<Rightarrow> xhtml" where
  "xhtml_setTitle t x = x\<lparr>xhtml_title := t\<rparr>"

record pkg =
  pkg_author :: string
  pkg_lang :: string
  pkg_title :: string
  pkg_uuid :: string

definition newPackage :: pkg where
  "newPackage = \<lparr>pkg_author = [], pkg_lang = [], pkg_title = [], pkg_uuid = []\<rparr>"

definition pkg_setAuthor :: "string \<Rightarrow> pkg \<Rightarrow> pkg" where
  "pkg_setAuthor a p = p\<lparr>pkg_author := a\<rparr>"

definition pkg_setLang :: "string \<Rightarrow> pkg \<Rightarrow> pkg" where
  "pkg_setLang l p = p\<lparr>pkg_lang := l\<rparr>"

definition pkg_setTitle :: "string \<Rightarrow> pkg \<Rightarrow> pkg" where
  "pkg_setTitle t p = p\<lparr>pkg_title := t\<rparr>"

definition pkg_setUUID :: "string \<Rightarrow> pkg \<Rightarrow> pkg" where
  "pkg_setUUID u p = p\<lparr>pkg_uuid := u\<rparr>"

record toc =
  toc_title :: string
  toc_uuid :: string

definition newToc :: toc where
  "newToc = \<lparr>toc_title = [], toc_uuid = []\<rparr>"

definition toc_setTitle :: "string \<Rightarrow> toc \<Rightarrow> toc" where
  "toc_setTitle t c = c\<lparr>toc_title := t\<rparr>"

definition toc_setUUID :: "string \<Rightarrow> toc \<Rightarrow> toc" where
  "toc_setUUID u c = c\<lparr>toc_uuid := u\<rparr>"

text \<open>
  The constants of \<^verbatim>\<open>epub.go\<close>. The two format strings are used only as the first argument
  of \<^verbatim>\<open>fmt.Sprintf\<close>, so each is the function of the remaining arguments that
  \<^verbatim>\<open>Sprintf\<close> computes: \<^verbatim>\<open>"image%04d%s"\<close> and \<^verbatim>\<open>"section%04d.xhtml"\<close>.
\<close>

definition defaultEpubLang :: string where
  "defaultEpubLang = ''en''"

definition imageFileFormat :: "nat \<Rightarrow> string \<Rightarrow> string" where
  "imageFileFormat n s = ''image'' @ fmt04d n @ s"

definition sectionFileFormat :: "nat \<Rightarrow> string" where
  "sectionFileFormat n = ''section'' @ fmt04d n @ ''.xhtml''"

definition urnUUIDPrefix :: string where
  "urnUUIDPrefix = ''urn:uuid:''"

text \<open>
  Modelled from the spec: the constant \<^verbatim>\<open>imageFolderName\<close> is declared outside
  \<^verbatim>\<open>epub.go\<close>; the spec's file layout (\<^verbatim>\<open>OEBPS/img/\<close>) and its Example 2
  (\<^verbatim>\<open>../img/go-gopher.png\<close>) give its value.
\<close>

definition imageFolderName :: string where
  "imageFolderName = ''img''"

text \<open>
  The struct \<^verbatim>\<open>Epub\<close>. A Go map is a finite map with no order of its own: \<^verbatim>\<open>len\<close> is the
  number of its keys. The pointers \<^verbatim>\<open>pkg\<close> and \<^verbatim>\<open>toc\<close> are owned by the one \<^verbatim>\<open>Epub\<close> that
  \<^verbatim>\<open>NewEpub\<close> makes them for, so they are held by value.
\<close>

record Epub =
  author :: string
  images :: "(string, string) fmap"
  lang :: string
  pkg :: pkg
  sections :: "(string, xhtml) fmap"
  title :: string
  toc :: toc
  uuid :: string

definition len :: "('k, 'v) fmap \<Rightarrow> nat" where
  "len m = fcard (fmdom m)"

section \<open>The operations of \<^verbatim>\<open>epub.go\<close>\<close>

text \<open>
  A method with a pointer receiver takes the \<^verbatim>\<open>Epub\<close> and returns it updated. The Go
  result pair \<^verbatim>\<open>(string, error)\<close> is a sum: \<open>Inl ErrFilenameAlreadyUsed\<close> for
  \<^verbatim>\<open>("", ErrFilenameAlreadyUsed)\<close> and \<open>Inr s\<close> for \<^verbatim>\<open>(s, nil)\<close>.
\<close>

definition SetAuthor :: "string \<Rightarrow> Epub \<Rightarrow> Epub" where
  "SetAuthor a e = e\<lparr>author := a, pkg := pkg_setAuthor a (pkg e)\<rparr>"

definition SetLang :: "string \<Rightarrow> Epub \<Rightarrow> Epub" where
  "SetLang l e = e\<lparr>lang := l, pkg := pkg_setLang l (pkg e)\<rparr>"

definition SetTitle :: "string \<Rightarrow> Epub \<Rightarrow> Epub" where
  "SetTitle t e = e\<lparr>title := t, pkg := pkg_setTitle t (pkg e), toc := toc_setTitle t (toc e)\<rparr>"

definition SetUUID :: "string \<Rightarrow> Epub \<Rightarrow> Epub" where
  "SetUUID u e =
     e\<lparr>uuid := u, pkg := pkg_setUUID (urnUUIDPrefix @ u) (pkg e),
       toc := toc_setUUID (urnUUIDPrefix @ u) (toc e)\<rparr>"

definition Author :: "Epub \<Rightarrow> string" where
  "Author e = author e"

definition Lang :: "Epub \<Rightarrow> string" where
  "Lang e = lang e"

definition Title :: "Epub \<Rightarrow> string" where
  "Title e = title e"

definition UUID :: "Epub \<Rightarrow> string" where
  "UUID e = uuid e"

text \<open>
  \<^verbatim>\<open>NewEpub\<close> calls \<^verbatim>\<open>uuid.NewV4().String()\<close>, a random generator outside the package: the
  string it returns is the argument \<open>generated\<close>. \<open>zeroEpub\<close> is \<^verbatim>\<open>&Epub{}\<close> after the
  two maps and the two documents are made.
\<close>

definition zeroEpub :: Epub where
  "zeroEpub =
     \<lparr>author = [], images = fmempty, lang = [], pkg = newPackage, sections = fmempty,
      title = [], toc = newToc, uuid = []\<rparr>"

definition NewEpub :: "string \<Rightarrow> string \<Rightarrow> Epub" where
  "NewEpub t generated = SetUUID generated (SetTitle t (SetLang defaultEpubLang zeroEpub))"

definition AddImage :: "string \<Rightarrow> string \<Rightarrow> Epub \<Rightarrow> (error + string) \<times> Epub" where
  "AddImage imageSource imageFilename e =
     (let imageFilename =
            (if imageFilename = [] then imageFileFormat (len (images e) + 1) (Ext imageSource)
             else imageFilename)
      in if fmlookup (images e) imageFilename \<noteq> None then (Inl ErrFilenameAlreadyUsed, e)
         else (Inr (Join [''..'', imageFolderName, imageFilename]),
               e\<lparr>images := fmupd imageFilename imageSource (images e)\<rparr>))"

definition AddSection :: "string \<Rightarrow> string \<Rightarrow> string \<Rightarrow> Epub \<Rightarrow> (error + string) \<times> Epub" where
  "AddSection sectionTitle sectionContent sectionFilename e =
     (let sectionFilename =
            (if sectionFilename = [] then sectionFileFormat (len (sections e) + 1)
             else sectionFilename)
      in if fmlookup (sections e) sectionFilename \<noteq> None then (Inl ErrFilenameAlreadyUsed, e)
         else
           (let x = xhtml_setTitle sectionTitle (newXhtml sectionContent)
            in (Inr sectionFilename, e\<lparr>sections := fmupd sectionFilename x (sections e)\<rparr>)))"

text \<open>
  A caller's use of a Book is a sequence of calls on the value \<^verbatim>\<open>NewEpub\<close> returned. A call
  that returns an error leaves the Book in the caller's hands, so the sequence goes on.
\<close>

datatype call =
    is_AddImage: CallAddImage string string
  | is_AddSection: CallAddSection string string string
  | is_SetAuthor: CallSetAuthor string
  | is_SetLang: CallSetLang string
  | is_SetTitle: CallSetTitle string
  | is_SetUUID: CallSetUUID string

fun apply_call :: "call \<Rightarrow> Epub \<Rightarrow> Epub" where
  "apply_call (CallAddImage src fn) e = snd (AddImage src fn e)"
| "apply_call (CallAddSection t c fn) e = snd (AddSection t c fn e)"
| "apply_call (CallSetAuthor a) e = SetAuthor a e"
| "apply_call (CallSetLang l) e = SetLang l e"
| "apply_call (CallSetTitle t) e = SetTitle t e"
| "apply_call (CallSetUUID u) e = SetUUID u e"

fun apply_calls :: "call list \<Rightarrow> Epub \<Rightarrow> Epub" where
  "apply_calls [] e = e"
| "apply_calls (c # cs) e = apply_calls cs (apply_call c e)"

text \<open>
  Two loops of a caller: every source is added with an empty filename, and the results of
  the calls are collected in order.
\<close>

fun add_images :: "string list \<Rightarrow> Epub \<Rightarrow> (error + string) list" where
  "add_images [] e = []"
| "add_images (src # srcs) e =
     fst (AddImage src [] e) # add_images srcs (snd (AddImage src [] e))"

fun add_sections :: "(string \<times> string) list \<Rightarrow> Epub \<Rightarrow> (error + string) list" where
  "add_sections [] e = []"
| "add_sections ((t, c) # rest) e =
     fst (AddSection t c [] e) # add_sections rest (snd (AddSection t c [] e))"

text \<open>
  Modelled from the spec: the operation add-stylesheet (\<^verbatim>\<open>AddCSS\<close> in the repository's
  examples) is not in \<^verbatim>\<open>epub.go\<close>, and the \<^verbatim>\<open>Epub\<close> struct there has no stylesheets.
  By section 4.1 of the spec the stylesheets are a namespace of their own: an empty
  filename is replaced by the prefix of the kind, the 4-digit sequence number (the count of
  stylesheets plus one) and the extension; a filename that is already in the namespace is
  refused and the registry is left as it was; otherwise the content is stored and
  \<^verbatim>\<open>../<kindFolder>/<filename>\<close> is returned. Example 1 of the spec gives the prefix
  \<^verbatim>\<open>css\<close>, the extension \<^verbatim>\<open>.css\<close> and the folder \<^verbatim>\<open>css\<close>
  (\<^verbatim>\<open>../css/epub.css\<close>, then \<^verbatim>\<open>../css/css0002.css\<close>). The model is the operation on the
  map of stylesheets alone, written the way \<^verbatim>\<open>AddImage\<close> is.
\<close>

definition cssFileFormat :: "nat \<Rightarrow> string" where
  "cssFileFormat n = ''css'' @ fmt04d n @ ''.css''"

definition cssFolderName :: string where
  "cssFolderName = ''css''"

definition AddCSS ::
  "string \<Rightarrow> string \<Rightarrow> (string, string) fmap \<Rightarrow> (error + string) \<times> (string, string) fmap" where
  "AddCSS cssContent cssFilename css =
     (let cssFilename =
            (if cssFilename = [] then cssFileFormat (len css + 1) else cssFilename)
      in if fmlookup css cssFilename \<noteq> None then (Inl ErrFilenameAlreadyUsed, css)
         else (Inr (Join [''..'', cssFolderName, cssFilename]),
               fmupd cssFilename cssContent css))"

fun add_stylesheets :: "string list \<Rightarrow> (string, string) fmap \<Rightarrow> (error + string) list" where
  "add_stylesheets [] css = []"
| "add_stylesheets (content # contents) css =
     fst (AddCSS content [] css) # add_stylesheets contents (snd (AddCSS content [] css))"

section \<open>Vocabulary of the properties\<close>

text \<open>
  The number a string of decimal digits denotes, leading zeros allowed: the reading that
  undoes \<^verbatim>\<open>%04d\<close>.
\<close>

definition decimal_value :: "string \<Rightarrow> nat" where
  "decimal_value s = foldl (\<lambda>a c. 10 * a + (of_char c - 48)) 0 s"

text \<open>
  A path element that \<^verbatim>\<open>filepath.Clean\<close> keeps as it is: not empty, without a
  separator, and neither \<^verbatim>\<open>.\<close> nor \<^verbatim>\<open>..\<close>.
\<close>

definition plain_element :: "string \<Rightarrow> bool" where
  "plain_element x = (x \<noteq> [] \<and> CHR ''/'' \<notin> set x \<and> x \<noteq> ''.'' \<and> x \<noteq> ''..'')"

text \<open>
  The title and the identifier that a sequence of calls sets last, \<open>t\<close> and \<open>u\<close> being
  the ones in force before it.
\<close>

fun last_title :: "string \<Rightarrow> call list \<Rightarrow> string" where
  "last_title t [] = t"
| "last_title t (CallSetTitle t' # cs) = last_title t' cs"
| "last_title t (_ # cs) = last_title t cs"

fun last_uuid :: "string \<Rightarrow> call list \<Rightarrow> string" where
  "last_uuid u [] = u"
| "last_uuid u (CallSetUUID u' # cs) = last_uuid u' cs"
| "last_uuid u (_ # cs) = last_uuid u cs"

text \<open>The Book, the package metadata and the toc metadata agree on title \<open>t\<close> and identifier \<open>u\<close>.\<close>

definition mirrored :: "Epub \<Rightarrow> string \<Rightarrow> string \<Rightarrow> bool" where
  "mirrored e t u =
     (title e = t \<and> pkg_title (pkg e) = t \<and> toc_title (toc e) = t \<and>
      uuid e = u \<and> pkg_uuid (pkg e) = urnUUIDPrefix @ u \<and>
      toc_uuid (toc e) = urnUUIDPrefix @ u)"

text \<open>
  Every key of the map is a name the generator made for a count the map has reached:
  \<^verbatim>\<open>image\<close>, a number up to the size of the map, and an extension (empty, or starting with
  a dot). For sections the name is fixed by the number alone.
\<close>

definition image_names_numbered :: "(string, string) fmap \<Rightarrow> bool" where
  "image_names_numbered m =
     (\<forall>key. fmlookup m key \<noteq> None \<longrightarrow>
        (\<exists>k x. k \<le> len m \<and> (x = [] \<or> (\<exists>r. x = CHR ''.'' # r)) \<and>
               key = imageFileFormat k x))"

definition section_names_numbered :: "(string, xhtml) fmap \<Rightarrow> bool" where
  "section_names_numbered m =
     (\<forall>key. fmlookup m key \<noteq> None \<longrightarrow> (\<exists>k. k \<le> len m \<and> key = sectionFileFormat k))"

definition css_names_numbered :: "(string, string) fmap \<Rightarrow> bool" where
  "css_names_numbered m =
     (\<forall>key. fmlookup m key \<noteq> None \<longrightarrow> (\<exists>k. k \<le> len m \<and> key = cssFileFormat k))"

text \<open>Books used as concrete inputs.\<close>

definition book_with_cover :: Epub where
  "book_with_cover =
     apply_calls [CallAddImage ''cover.png'' ''cover.png'',
                  CallAddSection ''One'' ''<p/>'' ''one.xhtml''] (NewEpub ''t'' ''g'')"

definition book_with_second_names :: Epub where
  "book_with_second_names =
     apply_calls [CallAddImage ''a.png'' ''image0002.png'',
                  CallAddSection ''One'' ''<p/>'' ''section0002.xhtml''] (NewEpub ''t'' ''g'')"

section \<open>The write operation\<close>

text \<open>
  Modelled from the spec: the write operation (the ContainerSerializer of the spec, its
  section 4.5 and the file layout of its section 6) is not in \<^verbatim>\<open>epub.go\<close>. The model
  follows the spec's three steps. Step 1 resolves the bytes of every image with the external
  fetch collaborator, and a failed fetch aborts the write. Step 2 builds the package
  document, whose manifest needs the media type of every resource from a fixed table by
  file extension (an unsupported extension fails the build), and the two toc documents.
  Step 3 lists the archive in the order of the spec's layout: the entry \<^verbatim>\<open>mimetype\<close>,
  stored without compression and holding the media-type string of the container, then the
  container descriptor, the package document, the two toc documents, the images and the
  sections. The spec fixes neither the text of the generated documents, nor the table of
  media types, nor the order of the files of one folder: the documents and the table are
  taken from the collaborators, an encoder that fails giving \<open>None\<close>, and the files of a
  folder are listed by name. The container descriptor is static and points at the package
  document: its content is modelled as that path. The spec names the media-type string only
  as fixed; the model takes the one of the EPUB container format.
\<close>

datatype write_error = UnsupportedMediaType | ResourceFetchFailure | SerializationFailure

datatype compression = Stored | Deflated

record archive_entry =
  entry_name :: string
  entry_method :: compression
  entry_content :: string

record collaborators =
  fetch :: "string \<Rightarrow> string option"
  media_type :: "string \<Rightarrow> string option"
  package_document :: "Epub \<Rightarrow> string option"
  toc_ncx :: "Epub \<Rightarrow> string option"
  nav_xhtml :: "Epub \<Rightarrow> string option"
  section_document :: "xhtml \<Rightarrow> string"

definition mimetypeFilename :: string where
  "mimetypeFilename = ''mimetype''"

definition mediaTypeEpub :: string where
  "mediaTypeEpub = ''application/epub+zip''"

fun fetch_all :: "(string \<Rightarrow> string option) \<Rightarrow> (string \<times> string) list \<Rightarrow> (string \<times> string) list option" where
  "fetch_all f [] = Some []"
| "fetch_all f ((name, src) # rest) =
     (case f src of
        None \<Rightarrow> None
      | Some bytes \<Rightarrow>
          (case fetch_all f rest of
             None \<Rightarrow> None
           | Some files \<Rightarrow> Some ((name, bytes) # files)))"

definition Write :: "collaborators \<Rightarrow> Epub \<Rightarrow> write_error + archive_entry list" where
  "Write env e =
     (case fetch_all (fetch env) (sorted_list_of_fmap (images e)) of
        None \<Rightarrow> Inl ResourceFetchFailure
      | Some files \<Rightarrow>
          if list_ex (\<lambda>(name, bytes). media_type env (Ext name) = None) files
          then Inl UnsupportedMediaType
          else
            (case (package_document env e, toc_ncx env e, nav_xhtml env e) of
               (Some opf, Some ncx, Some nav) \<Rightarrow>
                 Inr (\<lparr>entry_name = mimetypeFilename, entry_method = Stored,
                        entry_content = mediaTypeEpub\<rparr> #
                      \<lparr>entry_name = ''META-INF/container.xml'', entry_method = Deflated,
                        entry_content = ''OEBPS/package.opf''\<rparr> #
                      \<lparr>entry_name = ''OEBPS/package.opf'', entry_method = Deflated,
                        entry_content = opf\<rparr> #
                      \<lparr>entry_name = ''OEBPS/toc.ncx'', entry_method = Deflated,
                        entry_content = ncx\<rparr> #
                      \<lparr>entry_name = ''OEBPS/nav.xhtml'', entry_method = Deflated,
                        entry_content = nav\<rparr> #
                      map (\<lambda>(name, bytes).
                             \<lparr>entry_name = ''OEBPS/img/'' @ name, entry_method = Deflated,
                               entry_content = bytes\<rparr>) files @
                      map (\<lambda>(name, x).
                             \<lparr>entry_name = ''OEBPS/'' @ name, entry_method = Deflated,
                               entry_content = section_document env x\<rparr>)
                        (sorted_list_of_fmap (sections e)))
             | _ \<Rightarrow> Inl SerializationFailure))"

text \<open>Collaborators that never fail, used as a concrete input.\<close>

definition plain_collaborators :: collaborators where
  "plain_collaborators =
     \<lparr>fetch = (\<lambda>src. Some ''bytes''), media_type = (\<lambda>ext. Some ''image/png''),
      package_document = (\<lambda>e. Some ''opf''), toc_ncx = (\<lambda>e. Some ''ncx''),
      nav_xhtml = (\<lambda>e. Some ''nav''), section_document = xhtml_body\<rparr>"

section \<open>Facts about the library functions\<close>

lemma digit_cases: "d < 10 \<Longrightarrow> d \<in> {0, 1, 2, 3, 4, 5, 6, 7, 8, 9::nat}"
  by auto

lemma of_char_digit_char: "d < 10 \<Longrightarrow> of_char (digit_char d) = (48 + d :: nat)"
  by (drule digit_cases) (auto simp: digit_char_def)

lemma digit_char_in_digits: "d < 10 \<Longrightarrow> digit_char d \<in> set ''0123456789''"
  unfolding digit_char_def by (rule nth_mem) simp

lemma decimal_value_snoc:
  "decimal_value (s @ [c]) = 10 * decimal_value s + (of_char c - 48)"
  by (simp add: decimal_value_def)

lemma decimal_value_decimal: "decimal_value (decimal n) = n"
proof (induction n rule: decimal.induct)
  case (1 n)
  show ?case
  proof (cases "n < 10")
    case True
    then show ?thesis
      by (simp add: decimal.simps [of n] decimal_value_def of_char_digit_char)
  next
    case False
    then have "decimal_value (decimal n) = 10 * (n div 10) + n mod 10"
      using "1.IH" by (simp add: decimal.simps [of n] decimal_value_snoc of_char_digit_char)
    then show ?thesis by simp
  qed
qed

lemma decimal_value_zeros: "decimal_value (replicate k (CHR ''0'') @ s) = decimal_value s"
proof -
  have "foldl (\<lambda>a c. 10 * a + (of_char c - 48)) (0::nat) (replicate k (CHR ''0'')) = 0"
    by (induction k) simp_all
  then show ?thesis by (simp add: decimal_value_def)
qed

lemma decimal_value_fmt04d: "decimal_value (fmt04d n) = n"
  by (simp add: fmt04d_def decimal_value_zeros decimal_value_decimal)

lemma fmt04d_inj: "fmt04d n = fmt04d m \<Longrightarrow> n = m"
  by (metis decimal_value_fmt04d)

lemma decimal_digits: "set (decimal n) \<subseteq> set ''0123456789''"
proof (induction n rule: decimal.induct)
  case (1 n)
  show ?case
  proof (cases "n < 10")
    case True
    then show ?thesis
      using digit_char_in_digits [of n] by (simp add: decimal.simps [of n])
  next
    case False
    then show ?thesis
      using "1.IH" digit_char_in_digits [of "n mod 10"] by (simp add: decimal.simps [of n])
  qed
qed

lemma fmt04d_digits: "set (fmt04d n) \<subseteq> set ''0123456789''"
  using decimal_digits [of n] by (auto simp: fmt04d_def)

lemma length_decimal_pos: "0 < length (decimal n)"
  by (simp add: decimal.simps [of n])

lemma length_fmt04d: "length (fmt04d n) = max 4 (length (decimal n))"
  by (simp add: fmt04d_def)

lemma length_decimal_le: "n < 10 ^ Suc k \<Longrightarrow> length (decimal n) \<le> Suc k"
proof (induction k arbitrary: n)
  case 0
  then show ?case by (simp add: decimal.simps [of n])
next
  case (Suc k)
  show ?case
  proof (cases "n < 10")
    case True
    then show ?thesis by (simp add: decimal.simps [of n])
  next
    case False
    from Suc.prems have "n div 10 < 10 ^ Suc k"
      by (simp add: less_mult_imp_div_less mult.commute)
    then have "length (decimal (n div 10)) \<le> Suc k" by (rule Suc.IH)
    with False show ?thesis by (simp add: decimal.simps [of n])
  qed
qed

lemma length_decimal_le4: "n < 10000 \<Longrightarrow> length (decimal n) \<le> 4"
  using length_decimal_le [of n 3] by simp

lemma length_fmt04d_small: "n < 10000 \<Longrightarrow> length (fmt04d n) = 4"
  using length_decimal_le4 [of n] by (simp add: length_fmt04d)

lemma length_decimal_ge: "10 ^ k \<le> n \<Longrightarrow> Suc k \<le> length (decimal n)"
proof (induction k arbitrary: n)
  case 0
  show ?case by (simp add: decimal.simps [of n])
next
  case (Suc k)
  from Suc.prems have ge: "10 * 10 ^ k \<le> n" by simp
  then have "10 ^ k \<le> n div 10" by simp
  then have "Suc k \<le> length (decimal (n div 10))" by (rule Suc.IH)
  moreover have "\<not> n < 10"
  proof
    assume "n < 10"
    moreover have "(1::nat) \<le> 10 ^ k" by simp
    ultimately show False using ge by simp
  qed
  ultimately show ?case by (simp add: decimal.simps [of n])
qed

lemma length_decimal_exact:
  "10 ^ k \<le> n \<Longrightarrow> n < 10 ^ Suc k \<Longrightarrow> length (decimal n) = Suc k"
  using length_decimal_ge [of k n] length_decimal_le [of n k] by simp

lemma fmt04d_large: "10000 \<le> n \<Longrightarrow> fmt04d n = decimal n"
  using length_decimal_ge [of 4 n] by (simp add: fmt04d_def)

lemma length_fmt04d_large:
  "10 ^ k \<le> n \<Longrightarrow> n < 10 ^ Suc k \<Longrightarrow> 4 \<le> k \<Longrightarrow> length (fmt04d n) = Suc k"
  using length_decimal_exact [of k n] by (simp add: length_fmt04d)

lemma fmt04d_10000: "fmt04d 10000 = ''10000''"
  by (simp add: fmt04d_def decimal.simps [of 10000] decimal.simps [of 1000]
      decimal.simps [of 100] decimal.simps [of 10] decimal.simps [of "Suc 0"] digit_char_def)


lemma ext_scan_shape:
  "ext_scan front suffix = [] \<or> (\<exists>r. ext_scan front suffix = CHR ''.'' # r)"
  by (induction front suffix rule: ext_scan.induct) simp_all

lemma ext_scan_no_slash:
  "CHR ''/'' \<notin> set suffix \<Longrightarrow> CHR ''/'' \<notin> set (ext_scan front suffix)"
  by (induction front suffix rule: ext_scan.induct) simp_all

lemma Ext_shape: "Ext path = [] \<or> (\<exists>r. Ext path = CHR ''.'' # r)"
  unfolding Ext_def by (rule ext_scan_shape)

lemma Ext_no_slash: "CHR ''/'' \<notin> set (Ext path)"
  unfolding Ext_def by (rule ext_scan_no_slash) simp

lemma takeWhile_prefix:
  "\<forall>c \<in> set xs. P c \<Longrightarrow> ys = [] \<or> (\<exists>d r. ys = d # r \<and> \<not> P d) \<Longrightarrow>
   takeWhile P (xs @ ys) = xs"
  by (induction xs) auto

lemma dot_not_digit: "CHR ''.'' \<notin> set ''0123456789''"
  by simp

lemma slash_not_digit: "CHR ''/'' \<notin> set ''0123456789''"
  by simp


lemma takeWhile_digits_fmt04d:
  assumes "x = [] \<or> (\<exists>r. x = CHR ''.'' # r)"
  shows "takeWhile (\<lambda>c. c \<in> set ''0123456789'') (fmt04d n @ x) = fmt04d n"
proof (rule takeWhile_prefix)
  show "\<forall>c \<in> set (fmt04d n). c \<in> set ''0123456789''"
    using fmt04d_digits [of n] by blast
  show "x = [] \<or> (\<exists>d r. x = d # r \<and> d \<notin> set ''0123456789'')"
    using assms dot_not_digit by blast
qed

lemma imageFileFormat_inj:
  assumes "imageFileFormat n x = imageFileFormat m y"
    and "x = [] \<or> (\<exists>r. x = CHR ''.'' # r)" and "y = [] \<or> (\<exists>r. y = CHR ''.'' # r)"
  shows "n = m"
proof -
  from assms(1) have "fmt04d n @ x = fmt04d m @ y" by (simp add: imageFileFormat_def)
  then have "takeWhile (\<lambda>c. c \<in> set ''0123456789'') (fmt04d n @ x) =
      takeWhile (\<lambda>c. c \<in> set ''0123456789'') (fmt04d m @ y)" by (rule arg_cong)
  then have "fmt04d n = fmt04d m"
    by (simp only: takeWhile_digits_fmt04d [OF assms(2)] takeWhile_digits_fmt04d [OF assms(3)])
  then show ?thesis by (rule fmt04d_inj)
qed

lemma sectionFileFormat_inj: "sectionFileFormat n = sectionFileFormat m \<Longrightarrow> n = m"
  by (simp add: sectionFileFormat_def fmt04d_inj)

lemma fmt04d_no_slash: "CHR ''/'' \<notin> set (fmt04d n)"
  using fmt04d_digits [of n] slash_not_digit by blast

lemma imageFileFormat_no_slash: "CHR ''/'' \<notin> set (imageFileFormat n (Ext src))"
  using fmt04d_no_slash [of n] Ext_no_slash [of src] by (simp add: imageFileFormat_def)

lemma plain_imageFileFormat: "plain_element (imageFileFormat n (Ext src))"
  using imageFileFormat_no_slash [of n src]
  by (simp add: plain_element_def) (simp add: imageFileFormat_def)

lemma clean_loop_element:
  assumes "c \<noteq> CHR ''/''" and "\<not> (c = CHR ''.'' \<and> at_element_end tail)"
    and "\<not> (c = CHR ''.'' \<and> take 1 tail = ''.'' \<and> at_element_end (drop 1 tail))"
    and "out \<noteq> []"
  shows "clean_loop False (c # tail) out dotdot =
      clean_loop False (dropWhile (\<lambda>x. x \<noteq> CHR ''/'') (c # tail))
        ((out @ ''/'') @ takeWhile (\<lambda>x. x \<noteq> CHR ''/'') (c # tail)) dotdot"
  using assms
  by (subst clean_loop.simps(2)) (simp only: simp_thms if_False if_True Let_def length_0_conv)

lemma clean_loop_plain:
  assumes "plain_element x" and "out \<noteq> []" and "rest = [] \<or> (\<exists>r. rest = CHR ''/'' # r)"
  shows "clean_loop False (x @ rest) out dotdot = clean_loop False rest (out @ ''/'' @ x) dotdot"
proof -
  from assms(1) obtain c r where x: "x = c # r" and c: "c \<noteq> CHR ''/''"
    and r: "CHR ''/'' \<notin> set r"
    by (cases x) (auto simp: plain_element_def)
  have end_iff: "at_element_end (r @ rest) \<longleftrightarrow> r = []"
    using assms(3) r by (cases r) (auto simp: at_element_end_def)
  have dot: "\<not> (c = CHR ''.'' \<and> at_element_end (r @ rest))"
    using assms(1) x by (auto simp: end_iff plain_element_def)
  have dotdot: "\<not> (c = CHR ''.'' \<and> take 1 (r @ rest) = ''.'' \<and> at_element_end (drop 1 (r @ rest)))"
  proof (cases r)
    case Nil
    then show ?thesis using assms(3) by auto
  next
    case (Cons d r')
    have "at_element_end (r' @ rest) \<longleftrightarrow> r' = []"
      using assms(3) r Cons by (cases r') (auto simp: at_element_end_def)
    then show ?thesis
      using assms(1) x Cons by (auto simp: plain_element_def)
  qed
  have all: "\<forall>y \<in> set (c # r). y \<noteq> CHR ''/''"
    using c r by auto
  have tw: "takeWhile (\<lambda>x. x \<noteq> CHR ''/'') ((c # r) @ rest) = c # r"
    using all assms(3) by (intro takeWhile_prefix) blast+
  have "dropWhile (\<lambda>x. x \<noteq> CHR ''/'') ((c # r) @ rest) = dropWhile (\<lambda>x. x \<noteq> CHR ''/'') rest"
    using all by (intro dropWhile_append2) blast
  also have "\<dots> = rest" using assms(3) by auto
  finally have dw: "dropWhile (\<lambda>x. x \<noteq> CHR ''/'') ((c # r) @ rest) = rest" .
  have "clean_loop False ((c # r) @ rest) out dotdot =
      clean_loop False (dropWhile (\<lambda>x. x \<noteq> CHR ''/'') ((c # r) @ rest))
        ((out @ ''/'') @ takeWhile (\<lambda>x. x \<noteq> CHR ''/'') ((c # r) @ rest)) dotdot"
    using c dot dotdot assms(2) unfolding append_Cons by (rule clean_loop_element)
  then show ?thesis
    by (simp only: tw dw x append_assoc)
qed


lemma clean_loop_slash: "clean_loop rooted (CHR ''/'' # rest) out dotdot = clean_loop rooted rest out dotdot"
  by (subst clean_loop.simps(2)) (simp only: refl if_True)

lemma clean_loop_plain_elements:
  assumes "es \<noteq> []" and "\<forall>x \<in> set es. plain_element x" and "out \<noteq> []"
  shows "clean_loop False (join_sep es) out dotdot = out @ ''/'' @ join_sep es"
  using assms
proof (induction es arbitrary: out rule: join_sep.induct)
  case 1
  then show ?case by simp
next
  case (2 e)
  then have "clean_loop False (e @ []) out dotdot = clean_loop False [] (out @ ''/'' @ e) dotdot"
    by (intro clean_loop_plain) simp_all
  then show ?case by (simp del: clean_loop.simps(2))
next
  case (3 e v va)
  have "clean_loop False (e @ CHR ''/'' # join_sep (v # va)) out dotdot =
      clean_loop False (CHR ''/'' # join_sep (v # va)) (out @ ''/'' @ e) dotdot"
    using "3.prems" by (intro clean_loop_plain) simp_all
  also have "\<dots> = clean_loop False (join_sep (v # va)) (out @ ''/'' @ e) dotdot"
    by (rule clean_loop_slash)
  also have "\<dots> = (out @ ''/'' @ e) @ ''/'' @ join_sep (v # va)"
    using "3.prems" by (intro "3.IH") simp_all
  finally show ?case by (simp del: clean_loop.simps(2))
qed

lemma clean_loop_img_prefix:
  "clean_loop False (''../img/'' @ name) [] 0 = clean_loop False name ''../img'' 2"
  by (simp add: at_element_end_def numeral_2_eq_2)

lemma join_sep_plain_nonempty:
  "es \<noteq> [] \<Longrightarrow> \<forall>x \<in> set es. plain_element x \<Longrightarrow> join_sep es \<noteq> []"
  by (cases es rule: join_sep.cases) (simp_all add: plain_element_def)

lemma Join_img:
  assumes "es \<noteq> []" and "\<forall>x \<in> set es. plain_element x"
  shows "Join [''..'', imageFolderName, join_sep es] = ''../img/'' @ join_sep es"
proof -
  have "clean_loop False (''../img/'' @ join_sep es) [] 0 = ''../img/'' @ join_sep es"
    using clean_loop_plain_elements [OF assms, of "''../img''" 2]
    by (simp only: clean_loop_img_prefix) simp
  then show ?thesis
    by (simp add: imageFolderName_def Clean_def del: clean_loop.simps(2))
qed

lemma Join_img_single:
  "plain_element name \<Longrightarrow> Join [''..'', imageFolderName, name] = ''../img/'' @ name"
  using Join_img [of "[name]"] by simp

section \<open>Facts about the operations\<close>

lemma len_empty: "len fmempty = 0"
  by (simp add: len_def)

lemma len_fmupd: "len (fmupd k v m) = (if fmlookup m k = None then Suc (len m) else len m)"
  by (auto simp: len_def fcard_finsert_if fmlookup_dom_iff)

lemma numbered_image_free:
  assumes "image_names_numbered m"
  shows "fmlookup m (imageFileFormat (len m + 1) (Ext src)) = None"
proof (rule ccontr)
  assume "fmlookup m (imageFileFormat (len m + 1) (Ext src)) \<noteq> None"
  with assms obtain k x where k: "k \<le> len m" and x: "x = [] \<or> (\<exists>r. x = CHR ''.'' # r)"
    and eq: "imageFileFormat (len m + 1) (Ext src) = imageFileFormat k x"
    unfolding image_names_numbered_def by blast
  from eq Ext_shape [of src] x have "len m + 1 = k" by (rule imageFileFormat_inj)
  with k show False by simp
qed

lemma numbered_image_step:
  assumes "image_names_numbered m"
  shows "image_names_numbered (fmupd (imageFileFormat (len m + 1) (Ext src)) v m)"
proof -
  have free: "fmlookup m (imageFileFormat (len m + 1) (Ext src)) = None"
    using assms by (rule numbered_image_free)
  show ?thesis
    unfolding image_names_numbered_def
  proof (intro allI impI)
    fix key
    assume key: "fmlookup (fmupd (imageFileFormat (len m + 1) (Ext src)) v m) key \<noteq> None"
    show "\<exists>k x. k \<le> len (fmupd (imageFileFormat (len m + 1) (Ext src)) v m) \<and>
        (x = [] \<or> (\<exists>r. x = CHR ''.'' # r)) \<and> key = imageFileFormat k x"
    proof (cases "key = imageFileFormat (len m + 1) (Ext src)")
      case True
      then show ?thesis
        using Ext_shape [of src] free by (intro exI [of _ "len m + 1"] exI [of _ "Ext src"])
          (simp add: len_fmupd)
    next
      case False
      with key have "fmlookup m key \<noteq> None" by simp
      with assms obtain k x where "k \<le> len m" "x = [] \<or> (\<exists>r. x = CHR ''.'' # r)"
        "key = imageFileFormat k x"
        unfolding image_names_numbered_def by blast
      then show ?thesis
        using free by (intro exI [of _ k] exI [of _ x]) (simp add: len_fmupd)
    qed
  qed
qed

lemma AddImage_generated:
  assumes "fmlookup (images e) (imageFileFormat (len (images e) + 1) (Ext src)) = None"
  shows "AddImage src [] e =
    (Inr (''../img/'' @ imageFileFormat (len (images e) + 1) (Ext src)),
     e\<lparr>images := fmupd (imageFileFormat (len (images e) + 1) (Ext src)) src (images e)\<rparr>)"
  using assms Join_img_single [OF plain_imageFileFormat, of "len (images e) + 1" src]
  by (simp add: AddImage_def Let_def del: Join.simps)

lemma add_images_numbered:
  "image_names_numbered (images e) \<Longrightarrow>
   add_images srcs e =
     map (\<lambda>(i, src). Inr (''../img/'' @ imageFileFormat (i + 1) (Ext src)))
       (enumerate (len (images e)) srcs)"
proof (induction srcs arbitrary: e)
  case Nil
  then show ?case by simp
next
  case (Cons src srcs)
  let ?name = "imageFileFormat (len (images e) + 1) (Ext src)"
  let ?e = "e\<lparr>images := fmupd ?name src (images e)\<rparr>"
  have free: "fmlookup (images e) ?name = None"
    using Cons.prems by (rule numbered_image_free)
  have add: "AddImage src [] e = (Inr (''../img/'' @ ?name), ?e)"
    using free by (rule AddImage_generated)
  have "image_names_numbered (images ?e)"
    using numbered_image_step [OF Cons.prems, of src src] by simp
  then have "add_images srcs ?e =
      map (\<lambda>(i, src). Inr (''../img/'' @ imageFileFormat (i + 1) (Ext src)))
        (enumerate (len (images ?e)) srcs)"
    by (rule Cons.IH)
  moreover have "len (images ?e) = Suc (len (images e))"
    using free by (simp add: len_fmupd)
  ultimately show ?case
    by (simp add: add)
qed

lemma numbered_section_free:
  assumes "section_names_numbered m"
  shows "fmlookup m (sectionFileFormat (len m + 1)) = None"
proof (rule ccontr)
  assume "fmlookup m (sectionFileFormat (len m + 1)) \<noteq> None"
  with assms obtain k where k: "k \<le> len m"
    and eq: "sectionFileFormat (len m + 1) = sectionFileFormat k"
    unfolding section_names_numbered_def by blast
  from eq have "len m + 1 = k" by (rule sectionFileFormat_inj)
  with k show False by simp
qed

lemma numbered_section_step:
  assumes "section_names_numbered m"
  shows "section_names_numbered (fmupd (sectionFileFormat (len m + 1)) v m)"
proof -
  have free: "fmlookup m (sectionFileFormat (len m + 1)) = None"
    using assms by (rule numbered_section_free)
  show ?thesis
    unfolding section_names_numbered_def
  proof (intro allI impI)
    fix key
    assume key: "fmlookup (fmupd (sectionFileFormat (len m + 1)) v m) key \<noteq> None"
    show "\<exists>k. k \<le> len (fmupd (sectionFileFormat (len m + 1)) v m) \<and> key = sectionFileFormat k"
    proof (cases "key = sectionFileFormat (len m + 1)")
      case True
      then show ?thesis
        using free by (intro exI [of _ "len m + 1"]) (simp add: len_fmupd)
    next
      case False
      with key have "fmlookup m key \<noteq> None" by simp
      with assms obtain k where "k \<le> len m" "key = sectionFileFormat k"
        unfolding section_names_numbered_def by blast
      then show ?thesis
        using free by (intro exI [of _ k]) (simp add: len_fmupd)
    qed
  qed
qed

lemma AddSection_generated:
  assumes "fmlookup (sections e) (sectionFileFormat (len (sections e) + 1)) = None"
  shows "AddSection t c [] e =
    (Inr (sectionFileFormat (len (sections e) + 1)),
     e\<lparr>sections := fmupd (sectionFileFormat (len (sections e) + 1))
          (xhtml_setTitle t (newXhtml c)) (sections e)\<rparr>)"
  using assms by (simp add: AddSection_def Let_def)

lemma add_sections_numbered:
  "section_names_numbered (sections e) \<Longrightarrow>
   add_sections secs e =
     map (\<lambda>(i, sec). Inr (sectionFileFormat (i + 1))) (enumerate (len (sections e)) secs)"
proof (induction secs arbitrary: e)
  case Nil
  then show ?case by simp
next
  case (Cons sec secs)
  obtain t c where sec: "sec = (t, c)" by (cases sec)
  let ?name = "sectionFileFormat (len (sections e) + 1)"
  let ?e = "e\<lparr>sections := fmupd ?name (xhtml_setTitle t (newXhtml c)) (sections e)\<rparr>"
  have free: "fmlookup (sections e) ?name = None"
    using Cons.prems by (rule numbered_section_free)
  have add: "AddSection t c [] e = (Inr ?name, ?e)"
    using free by (rule AddSection_generated)
  have "section_names_numbered (sections ?e)"
    using numbered_section_step [OF Cons.prems, of "xhtml_setTitle t (newXhtml c)"] by simp
  then have "add_sections secs ?e =
      map (\<lambda>(i, sec). Inr (sectionFileFormat (i + 1))) (enumerate (len (sections ?e)) secs)"
    by (rule Cons.IH)
  moreover have "len (sections ?e) = Suc (len (sections e))"
    using free by (simp add: len_fmupd)
  ultimately show ?case
    by (simp add: add sec)
qed

lemma numbered_empty: "image_names_numbered fmempty" "section_names_numbered fmempty"
  by (simp_all add: image_names_numbered_def section_names_numbered_def)

lemma distinct_numbered_images:
  "distinct (map (\<lambda>(i, src). (Inr (''../img/'' @ imageFileFormat (i + 1) (Ext src)) :: error + string))
     (enumerate n srcs))"
proof -
  let ?f = "\<lambda>(i, src). (Inr (''../img/'' @ imageFileFormat (i + 1) (Ext src)) :: error + string)"
  have "inj_on ?f (set (enumerate n srcs))"
    unfolding inj_on_def
  proof (intro ballI impI)
    fix p q
    assume p: "p \<in> set (enumerate n srcs)" and q: "q \<in> set (enumerate n srcs)"
      and eq: "?f p = ?f q"
    obtain i s where ps: "p = (i, s)" by (cases p)
    obtain j s' where qs: "q = (j, s')" by (cases q)
    from eq have "imageFileFormat (i + 1) (Ext s) = imageFileFormat (j + 1) (Ext s')"
      by (simp add: ps qs)
    then have "i + 1 = j + 1" using Ext_shape [of s] Ext_shape [of s'] by (rule imageFileFormat_inj)
    then have "i = j" by simp
    with p q show "p = q" by (auto simp: ps qs in_set_enumerate_eq)
  qed
  then show ?thesis by (simp add: distinct_map distinct_enumerate)
qed

lemma distinct_numbered_sections:
  "distinct (map (\<lambda>(i, sec). (Inr (sectionFileFormat (i + 1)) :: error + string)) (enumerate n secs))"
proof -
  let ?f = "\<lambda>(i, sec). (Inr (sectionFileFormat (i + 1)) :: error + string)"
  have "inj_on ?f (set (enumerate n secs))"
    unfolding inj_on_def
  proof (intro ballI impI)
    fix p q
    assume p: "p \<in> set (enumerate n secs)" and q: "q \<in> set (enumerate n secs)"
      and eq: "?f p = ?f q"
    obtain i s where ps: "p = (i, s)" by (cases p)
    obtain j s' where qs: "q = (j, s')" by (cases q)
    from eq have "sectionFileFormat (i + 1) = sectionFileFormat (j + 1)"
      by (simp add: ps qs)
    then have "i + 1 = j + 1" by (rule sectionFileFormat_inj)
    then have "i = j" by simp
    with p q show "p = q" by (auto simp: ps qs in_set_enumerate_eq)
  qed
  then show ?thesis by (simp add: distinct_map distinct_enumerate)
qed

lemmas setter_defs = SetUUID_def SetTitle_def SetLang_def SetAuthor_def
  pkg_setAuthor_def pkg_setLang_def pkg_setTitle_def pkg_setUUID_def
  toc_setTitle_def toc_setUUID_def

lemmas new_defs = NewEpub_def zeroEpub_def newPackage_def newToc_def

lemma fmt04d_small: "n < 10 \<Longrightarrow> fmt04d n = ''000'' @ [digit_char n]"
  by (simp add: fmt04d_def decimal.simps [of n] eval_nat_numeral)

lemma fmt04d_1: "fmt04d (Suc 0) = ''0001''"
  by (simp add: fmt04d_small digit_char_def)

lemma fmt04d_2: "fmt04d (Suc (Suc 0)) = ''0002''"
  by (simp add: fmt04d_small digit_char_def)

lemma images_NewEpub: "images (NewEpub t g) = fmempty"
  by (simp add: new_defs setter_defs)

lemma sections_NewEpub: "sections (NewEpub t g) = fmempty"
  by (simp add: new_defs setter_defs)

lemma book_with_cover_images: "images book_with_cover = fmupd ''cover.png'' ''cover.png'' fmempty"
  by (simp add: book_with_cover_def AddImage_def AddSection_def Let_def images_NewEpub
      del: Join.simps)

lemma book_with_cover_sections:
  "sections book_with_cover =
     fmupd ''one.xhtml'' (xhtml_setTitle ''One'' (newXhtml ''<p/>'')) fmempty"
  by (simp add: book_with_cover_def AddImage_def AddSection_def Let_def sections_NewEpub
      del: Join.simps)

lemma book_with_second_names_images:
  "images book_with_second_names = fmupd ''image0002.png'' ''a.png'' fmempty"
  by (simp add: book_with_second_names_def AddImage_def AddSection_def Let_def images_NewEpub
      del: Join.simps)

lemma book_with_second_names_sections:
  "sections book_with_second_names =
     fmupd ''section0002.xhtml'' (xhtml_setTitle ''One'' (newXhtml ''<p/>'')) fmempty"
  by (simp add: book_with_second_names_def AddImage_def AddSection_def Let_def sections_NewEpub
      del: Join.simps)

lemma AddImage_success:
  "fst (AddImage src fn e) = Inr p \<Longrightarrow>
   p = Join [''..'', imageFolderName,
         if fn = [] then imageFileFormat (len (images e) + 1) (Ext src) else fn]"
  by (auto simp: AddImage_def Let_def simp del: Join.simps split: if_splits)

lemma AddSection_success:
  "fst (AddSection t c fn e) = Inr p \<Longrightarrow>
   p = (if fn = [] then sectionFileFormat (len (sections e) + 1) else fn)"
  by (auto simp: AddSection_def Let_def split: if_splits)

lemma add_images_fresh:
  "images e = fmempty \<Longrightarrow>
   add_images srcs e =
     map (\<lambda>(i, src). Inr (''../img/'' @ imageFileFormat (i + 1) (Ext src))) (enumerate 0 srcs)"
  using add_images_numbered [of e srcs] by (simp add: numbered_empty len_empty)

lemma add_sections_fresh:
  "sections e = fmempty \<Longrightarrow>
   add_sections secs e = map (\<lambda>(i, sec). Inr (sectionFileFormat (i + 1))) (enumerate 0 secs)"
  using add_sections_numbered [of e secs] by (simp add: numbered_empty len_empty)

lemma sorted_list_of_fmap_single: "sorted_list_of_fmap (fmupd k v fmempty) = [(k, v)]"
  by (simp add: sorted_list_of_fmap_def sorted_list_of_fset.rep_eq)

text \<open>What a call leaves alone.\<close>

lemma AddImage_fields:
  "author (snd (AddImage src fn e)) = author e" "lang (snd (AddImage src fn e)) = lang e"
  "title (snd (AddImage src fn e)) = title e" "uuid (snd (AddImage src fn e)) = uuid e"
  "pkg (snd (AddImage src fn e)) = pkg e" "toc (snd (AddImage src fn e)) = toc e"
  "sections (snd (AddImage src fn e)) = sections e"
  by (simp_all add: AddImage_def Let_def del: Join.simps)

lemma AddSection_fields:
  "author (snd (AddSection t c fn e)) = author e" "lang (snd (AddSection t c fn e)) = lang e"
  "title (snd (AddSection t c fn e)) = title e" "uuid (snd (AddSection t c fn e)) = uuid e"
  "pkg (snd (AddSection t c fn e)) = pkg e" "toc (snd (AddSection t c fn e)) = toc e"
  "images (snd (AddSection t c fn e)) = images e"
  by (simp_all add: AddSection_def Let_def)

lemma apply_call_author: "\<not> is_SetAuthor c \<Longrightarrow> author (apply_call c e) = author e"
  by (cases c) (simp_all add: AddImage_fields AddSection_fields setter_defs)

lemma apply_call_lang: "\<not> is_SetLang c \<Longrightarrow> lang (apply_call c e) = lang e"
  by (cases c) (simp_all add: AddImage_fields AddSection_fields setter_defs)

lemma apply_call_title: "\<not> is_SetTitle c \<Longrightarrow> title (apply_call c e) = title e"
  by (cases c) (simp_all add: AddImage_fields AddSection_fields setter_defs)

lemma apply_call_uuid: "\<not> is_SetUUID c \<Longrightarrow> uuid (apply_call c e) = uuid e"
  by (cases c) (simp_all add: AddImage_fields AddSection_fields setter_defs)

lemma apply_calls_author:
  "\<forall>c \<in> set cs. \<not> is_SetAuthor c \<Longrightarrow> author (apply_calls cs e) = author e"
  by (induction cs arbitrary: e) (simp_all add: apply_call_author)

lemma apply_calls_lang:
  "\<forall>c \<in> set cs. \<not> is_SetLang c \<Longrightarrow> lang (apply_calls cs e) = lang e"
  by (induction cs arbitrary: e) (simp_all add: apply_call_lang)

lemma apply_calls_title:
  "\<forall>c \<in> set cs. \<not> is_SetTitle c \<Longrightarrow> title (apply_calls cs e) = title e"
  by (induction cs arbitrary: e) (simp_all add: apply_call_title)

lemma apply_calls_uuid:
  "\<forall>c \<in> set cs. \<not> is_SetUUID c \<Longrightarrow> uuid (apply_calls cs e) = uuid e"
  by (induction cs arbitrary: e) (simp_all add: apply_call_uuid)

text \<open>The mirror of title and identifier is kept by every call.\<close>

lemma mirrored_NewEpub: "mirrored (NewEpub t g) t g"
  by (simp add: mirrored_def new_defs setter_defs)

lemma mirrored_apply_call:
  "mirrored e t u \<Longrightarrow> mirrored (apply_call c e) (last_title t [c]) (last_uuid u [c])"
  by (cases c) (simp_all add: mirrored_def AddImage_fields AddSection_fields setter_defs)

lemma last_title_step: "last_title t (c # cs) = last_title (last_title t [c]) cs"
  by (cases c) simp_all

lemma last_uuid_step: "last_uuid u (c # cs) = last_uuid (last_uuid u [c]) cs"
  by (cases c) simp_all

lemma mirrored_apply_calls:
  "mirrored e t u \<Longrightarrow> mirrored (apply_calls cs e) (last_title t cs) (last_uuid u cs)"
proof (induction cs arbitrary: e t u)
  case Nil
  then show ?case by simp
next
  case (Cons c cs)
  from Cons.prems have "mirrored (apply_call c e) (last_title t [c]) (last_uuid u [c])"
    by (rule mirrored_apply_call)
  then have "mirrored (apply_calls cs (apply_call c e))
      (last_title (last_title t [c]) cs) (last_uuid (last_uuid u [c]) cs)"
    by (rule Cons.IH)
  then show ?case
    using last_title_step [of t c cs] last_uuid_step [of u c cs] by simp
qed

text \<open>The stylesheet registry.\<close>

lemma cssFileFormat_inj: "cssFileFormat n = cssFileFormat m \<Longrightarrow> n = m"
  by (simp add: cssFileFormat_def fmt04d_inj)

lemma plain_cssFileFormat: "plain_element (cssFileFormat n)"
  using fmt04d_no_slash [of n] by (simp add: plain_element_def cssFileFormat_def)

lemma clean_loop_css_prefix:
  "clean_loop False (''../css/'' @ name) [] 0 = clean_loop False name ''../css'' 2"
  by (simp add: at_element_end_def numeral_2_eq_2)

lemma Join_css:
  assumes "plain_element name"
  shows "Join [''..'', cssFolderName, name] = ''../css/'' @ name"
proof -
  have "clean_loop False (''../css/'' @ name) [] 0 = ''../css/'' @ name"
    using clean_loop_plain_elements [of "[name]" "''../css''" 2] assms
    by (simp only: clean_loop_css_prefix) simp
  then show ?thesis
    by (simp add: cssFolderName_def Clean_def del: clean_loop.simps(2))
qed

lemma numbered_css_free:
  assumes "css_names_numbered m"
  shows "fmlookup m (cssFileFormat (len m + 1)) = None"
proof (rule ccontr)
  assume "fmlookup m (cssFileFormat (len m + 1)) \<noteq> None"
  with assms obtain k where k: "k \<le> len m"
    and eq: "cssFileFormat (len m + 1) = cssFileFormat k"
    unfolding css_names_numbered_def by blast
  from eq have "len m + 1 = k" by (rule cssFileFormat_inj)
  with k show False by simp
qed

lemma numbered_css_step:
  assumes "css_names_numbered m"
  shows "css_names_numbered (fmupd (cssFileFormat (len m + 1)) v m)"
proof -
  have free: "fmlookup m (cssFileFormat (len m + 1)) = None"
    using assms by (rule numbered_css_free)
  show ?thesis
    unfolding css_names_numbered_def
  proof (intro allI impI)
    fix key
    assume key: "fmlookup (fmupd (cssFileFormat (len m + 1)) v m) key \<noteq> None"
    show "\<exists>k. k \<le> len (fmupd (cssFileFormat (len m + 1)) v m) \<and> key = cssFileFormat k"
    proof (cases "key = cssFileFormat (len m + 1)")
      case True
      then show ?thesis
        using free by (intro exI [of _ "len m + 1"]) (simp add: len_fmupd)
    next
      case False
      with key have "fmlookup m key \<noteq> None" by simp
      with assms obtain k where "k \<le> len m" "key = cssFileFormat k"
        unfolding css_names_numbered_def by blast
      then show ?thesis
        using free by (intro exI [of _ k]) (simp add: len_fmupd)
    qed
  qed
qed

lemma AddCSS_generated:
  assumes "fmlookup css (cssFileFormat (len css + 1)) = None"
  shows "AddCSS content [] css =
    (Inr (''../css/'' @ cssFileFormat (len css + 1)),
     fmupd (cssFileFormat (len css + 1)) content css)"
  using assms Join_css [OF plain_cssFileFormat, of "len css + 1"]
  by (simp add: AddCSS_def Let_def del: Join.simps)

lemma add_stylesheets_numbered:
  "css_names_numbered css \<Longrightarrow>
   add_stylesheets contents css =
     map (\<lambda>(i, content). Inr (''../css/'' @ cssFileFormat (i + 1))) (enumerate (len css) contents)"
proof (induction contents arbitrary: css)
  case Nil
  then show ?case by simp
next
  case (Cons content contents)
  let ?name = "cssFileFormat (len css + 1)"
  let ?css = "fmupd ?name content css"
  have free: "fmlookup css ?name = None"
    using Cons.prems by (rule numbered_css_free)
  have add: "AddCSS content [] css = (Inr (''../css/'' @ ?name), ?css)"
    using free by (rule AddCSS_generated)
  have "css_names_numbered ?css"
    using Cons.prems by (rule numbered_css_step)
  then have "add_stylesheets contents ?css =
      map (\<lambda>(i, content). Inr (''../css/'' @ cssFileFormat (i + 1))) (enumerate (len ?css) contents)"
    by (rule Cons.IH)
  moreover have "len ?css = Suc (len css)"
    using free by (simp add: len_fmupd)
  ultimately show ?case
    by (simp add: add)
qed

lemma add_stylesheets_fresh:
  "add_stylesheets contents fmempty =
     map (\<lambda>(i, content). Inr (''../css/'' @ cssFileFormat (i + 1))) (enumerate 0 contents)"
  using add_stylesheets_numbered [of fmempty contents]
  by (simp add: css_names_numbered_def len_empty)

lemma distinct_numbered_css:
  "distinct (map (\<lambda>(i, content). (Inr (''../css/'' @ cssFileFormat (i + 1)) :: error + string))
     (enumerate n contents))"
proof -
  let ?f = "\<lambda>(i, content). (Inr (''../css/'' @ cssFileFormat (i + 1)) :: error + string)"
  have "inj_on ?f (set (enumerate n contents))"
    unfolding inj_on_def
  proof (intro ballI impI)
    fix p q
    assume p: "p \<in> set (enumerate n contents)" and q: "q \<in> set (enumerate n contents)"
      and eq: "?f p = ?f q"
    obtain i s where ps: "p = (i, s)" by (cases p)
    obtain j s' where qs: "q = (j, s')" by (cases q)
    from eq have "cssFileFormat (i + 1) = cssFileFormat (j + 1)"
      by (simp add: ps qs)
    then have "i + 1 = j + 1" by (rule cssFileFormat_inj)
    then have "i = j" by simp
    with p q show "p = q" by (auto simp: ps qs in_set_enumerate_eq)
  qed
  then show ?thesis by (simp add: distinct_map distinct_enumerate)
qed

section \<open>The claims\<close>

text \<open>
  C1. The claim: for every sequence of \<^verbatim>\<open>AddSection\<close> calls, the order of the sections
  used for the spine and for both tables of contents is the order of the calls. The Book
  does not record that order: \<^verbatim>\<open>sections\<close> is a map, and adding the same two sections in
  the two possible orders gives the same Book, so nothing computed from the Book can give
  the order of insertion in both cases.
\<close>

theorem section_order_not_recorded:
  "apply_calls [CallAddSection t1 c1 ''one.xhtml'', CallAddSection t2 c2 ''two.xhtml'']
     (NewEpub t g) =
   apply_calls [CallAddSection t2 c2 ''two.xhtml'', CallAddSection t1 c1 ''one.xhtml'']
     (NewEpub t g)"
  by (simp add: AddSection_def Let_def sections_NewEpub fmupd_reorder_neq)

text \<open>
  C2. When the filename of an \<^verbatim>\<open>AddImage\<close> call (the one given or, for an empty one, the
  generated one) is already a key of \<^verbatim>\<open>images\<close>, the call returns
  \<^verbatim>\<open>ErrFilenameAlreadyUsed\<close> and the Book is unchanged in every field; the same holds
  for \<^verbatim>\<open>AddSection\<close> and the keys of \<^verbatim>\<open>sections\<close>.
\<close>

theorem duplicate_filename_leaves_book_unchanged:
  "(fmlookup (images e)
      (if fn = [] then imageFileFormat (len (images e) + 1) (Ext src) else fn) \<noteq> None \<longrightarrow>
    AddImage src fn e = (Inl ErrFilenameAlreadyUsed, e)) \<and>
   (fmlookup (sections e)
      (if fn' = [] then sectionFileFormat (len (sections e) + 1) else fn') \<noteq> None \<longrightarrow>
    AddSection t c fn' e = (Inl ErrFilenameAlreadyUsed, e))"
  by (simp add: AddImage_def AddSection_def Let_def del: Join.simps)

theorem duplicate_filename_leaves_book_unchanged_witness:
  "fmlookup (images book_with_cover) ''cover.png'' \<noteq> None \<and>
   AddImage ''other.png'' ''cover.png'' book_with_cover =
     (Inl ErrFilenameAlreadyUsed, book_with_cover) \<and>
   fmlookup (sections book_with_cover) ''one.xhtml'' \<noteq> None \<and>
   AddSection ''Two'' ''<p/>'' ''one.xhtml'' book_with_cover =
     (Inl ErrFilenameAlreadyUsed, book_with_cover)"
  using duplicate_filename_leaves_book_unchanged
      [of book_with_cover "''cover.png''" "''other.png''" "''one.xhtml''" "''Two''" "''<p/>''"]
  by (simp add: book_with_cover_images book_with_cover_sections)

text \<open>
  C3, as amended. Calls of \<^verbatim>\<open>AddImage\<close> with an empty filename on a Book without images
  all succeed; call number \<open>i\<close> (from 0) returns \<^verbatim>\<open>../img/image\<close>, the number \<open>i + 1\<close>
  (the count of images plus one) printed by \<^verbatim>\<open>%04d\<close>, and the extension of its source;
  the returned names are pairwise distinct. The same holds for \<^verbatim>\<open>AddSection\<close> with
  \<^verbatim>\<open>section\<close>, the number and \<^verbatim>\<open>.xhtml\<close>, and for add-stylesheet with
  \<^verbatim>\<open>../css/css\<close>, the number and \<^verbatim>\<open>.css\<close>, each kind counting on its own. What \<^verbatim>\<open>%04d\<close> prints consists of decimal
  digits, reads back as the number, and has at least four digits: exactly four below
  10000, and from 10000 on the decimal numeral of the number without padding, of
  \<open>k + 1\<close> digits for a number from \<open>10 ^ k\<close> up to \<open>10 ^ (k + 1) - 1\<close>. The extension is empty or starts with a dot. After an image named
  \<^verbatim>\<open>go-gopher.png\<close>, an empty filename for a \<^verbatim>\<open>.png\<close> source gives
  \<^verbatim>\<open>../img/image0002.png\<close>.
\<close>

theorem generated_names:
  "(images e = fmempty \<longrightarrow>
      add_images srcs e =
        map (\<lambda>(i, src). Inr (''../img/image'' @ fmt04d (i + 1) @ Ext src)) (enumerate 0 srcs) \<and>
      distinct (add_images srcs e)) \<and>
   (sections e = fmempty \<longrightarrow>
      add_sections secs e =
        map (\<lambda>(i, sec). Inr (''section'' @ fmt04d (i + 1) @ ''.xhtml'')) (enumerate 0 secs) \<and>
      distinct (add_sections secs e)) \<and>
   add_stylesheets contents fmempty =
     map (\<lambda>(i, content). Inr (''../css/css'' @ fmt04d (i + 1) @ ''.css''))
       (enumerate 0 contents) \<and>
   distinct (add_stylesheets contents fmempty) \<and>
   set (fmt04d n) \<subseteq> set ''0123456789'' \<and> decimal_value (fmt04d n) = n \<and>
   4 \<le> length (fmt04d n) \<and> (n < 10000 \<longrightarrow> length (fmt04d n) = 4) \<and>
   (10000 \<le> n \<longrightarrow> fmt04d n = decimal n) \<and>
   (4 \<le> k \<and> 10 ^ k \<le> n \<and> n < 10 ^ Suc k \<longrightarrow> length (fmt04d n) = Suc k) \<and>
   (Ext src = [] \<or> (\<exists>r. Ext src = CHR ''.'' # r)) \<and>
   fst (AddImage ''https://golang.org/doc/gopher/gophercolor16x16.png'' []
          (snd (AddImage ''testdata/gophercolor16x16.png'' ''go-gopher.png'' (NewEpub t g)))) =
     Inr ''../img/image0002.png''"
proof (intro conjI impI)
  assume e: "images e = fmempty"
  from e show "add_images srcs e =
      map (\<lambda>(i, src). Inr (''../img/image'' @ fmt04d (i + 1) @ Ext src)) (enumerate 0 srcs)"
    by (simp add: add_images_fresh imageFileFormat_def)
  from e show "distinct (add_images srcs e)"
    by (simp only: add_images_fresh distinct_numbered_images)
next
  assume e: "sections e = fmempty"
  from e show "add_sections secs e =
      map (\<lambda>(i, sec). Inr (''section'' @ fmt04d (i + 1) @ ''.xhtml'')) (enumerate 0 secs)"
    by (simp add: add_sections_fresh sectionFileFormat_def)
  from e show "distinct (add_sections secs e)"
    by (simp only: add_sections_fresh distinct_numbered_sections)
next
  show "add_stylesheets contents fmempty =
      map (\<lambda>(i, content). Inr (''../css/css'' @ fmt04d (i + 1) @ ''.css''))
        (enumerate 0 contents)"
    by (simp add: add_stylesheets_fresh cssFileFormat_def)
  show "distinct (add_stylesheets contents fmempty)"
    by (simp only: add_stylesheets_fresh distinct_numbered_css)
  show "set (fmt04d n) \<subseteq> set ''0123456789''" by (rule fmt04d_digits)
  show "decimal_value (fmt04d n) = n" by (rule decimal_value_fmt04d)
  show "4 \<le> length (fmt04d n)" by (simp add: length_fmt04d)
  show "Ext src = [] \<or> (\<exists>r. Ext src = CHR ''.'' # r)" by (rule Ext_shape)
next
  assume "n < 10000"
  then show "length (fmt04d n) = 4" by (rule length_fmt04d_small)
next
  assume "10000 \<le> n"
  then show "fmt04d n = decimal n" by (rule fmt04d_large)
next
  assume "4 \<le> k \<and> 10 ^ k \<le> n \<and> n < 10 ^ Suc k"
  then show "length (fmt04d n) = Suc k" by (simp add: length_fmt04d_large)
next
  have "snd (AddImage ''testdata/gophercolor16x16.png'' ''go-gopher.png'' (NewEpub t g)) =
      (NewEpub t g)\<lparr>images := fmupd ''go-gopher.png'' ''testdata/gophercolor16x16.png'' fmempty\<rparr>"
    by (simp add: AddImage_def Let_def images_NewEpub del: Join.simps)
  then show "fst (AddImage ''https://golang.org/doc/gopher/gophercolor16x16.png'' []
      (snd (AddImage ''testdata/gophercolor16x16.png'' ''go-gopher.png'' (NewEpub t g)))) =
      Inr ''../img/image0002.png''"
    by (simp add: AddImage_generated len_fmupd len_empty imageFileFormat_def fmt04d_2 Ext_def)
qed

theorem generated_names_witness:
  "images (NewEpub ''t'' ''g'') = fmempty \<and>
   add_images [''a.png'', ''dir.d/b'', ''http://host/c.jpeg''] (NewEpub ''t'' ''g'') =
     [Inr ''../img/image0001.png'', Inr ''../img/image0002'', Inr ''../img/image0003.jpeg''] \<and>
   sections (NewEpub ''t'' ''g'') = fmempty \<and>
   add_sections [(''One'', ''<p/>''), (''Two'', ''<p/>'')] (NewEpub ''t'' ''g'') =
     [Inr ''section0001.xhtml'', Inr ''section0002.xhtml''] \<and>
   add_stylesheets [''h1 {}'', ''p {}''] fmempty =
     [Inr ''../css/css0001.css'', Inr ''../css/css0002.css''] \<and>
   (7::nat) < 10000 \<and> length (fmt04d 7) = 4 \<and>
   (10000::nat) \<le> 123456 \<and> fmt04d 123456 = decimal 123456 \<and>
   (4::nat) \<le> 5 \<and> (10::nat) ^ 5 \<le> 123456 \<and> (123456::nat) < 10 ^ Suc 5 \<and>
   length (fmt04d 123456) = 6"
  using generated_names [of "NewEpub ''t'' ''g''" "[''a.png'', ''dir.d/b'', ''http://host/c.jpeg'']"
      "[(''One'', ''<p/>''), (''Two'', ''<p/>'')]" "[''h1 {}'', ''p {}'']" 7 0 "''a.png''"
      "''t''" "''g''"]
    generated_names [of "NewEpub ''t'' ''g''" "[]" "[]" "[]" 123456 5 "''a.png''" "''t''" "''g''"]
    length_decimal_exact [of 5 123456]
  by (simp add: images_NewEpub sections_NewEpub fmt04d_small digit_char_def Ext_def
      enumerate_eq_zip upt_rec [of 0] upt_rec [of 1] upt_rec [of 2] upt_rec [of 3])

text \<open>
  The claim as stated fails: call number 10000 of \<^verbatim>\<open>AddImage\<close> with an empty filename
  on a new Book returns a name with the five-digit number 10000.
\<close>

theorem generated_names_counterexample:
  "add_images (replicate 10000 ''a.png'') (NewEpub ''t'' ''g'') ! 9999 =
     Inr ''../img/image10000.png'' \<and> length ''10000'' \<noteq> 4"
proof -
  have "add_images (replicate 10000 ''a.png'') (NewEpub ''t'' ''g'') ! 9999 =
      Inr (''../img/'' @ imageFileFormat (9999 + 1) (Ext (replicate 10000 ''a.png'' ! 9999)))"
    by (simp add: add_images_fresh images_NewEpub nth_enumerate_eq)
  then show ?thesis
    by (simp add: imageFileFormat_def fmt04d_10000 Ext_def)
qed

text \<open>
  C4, as amended. A successful \<^verbatim>\<open>AddImage\<close> returns
  \<^verbatim>\<open>filepath.Join("..", imageFolderName, filename)\<close>, which is \<^verbatim>\<open>../img/\<close> followed by
  the filename for every generated filename and for every given filename whose elements
  between separators are not empty and are neither \<^verbatim>\<open>.\<close> nor \<^verbatim>\<open>..\<close>. A successful
  \<^verbatim>\<open>AddSection\<close> returns the section filename itself: the given \<^verbatim>\<open>firstsection.xhtml\<close>,
  and \<^verbatim>\<open>section0002.xhtml\<close> for the empty filename that follows.
\<close>

theorem add_results:
  "(fst (AddImage src fn e) = Inr p \<longrightarrow>
      p = Join [''..'', imageFolderName,
            if fn = [] then imageFileFormat (len (images e) + 1) (Ext src) else fn]) \<and>
   (fst (AddImage src [] e) = Inr p \<longrightarrow>
      p = ''../img/'' @ imageFileFormat (len (images e) + 1) (Ext src)) \<and>
   (es \<noteq> [] \<and> (\<forall>x \<in> set es. plain_element x) \<and>
    fst (AddImage src (join_sep es) e) = Inr p \<longrightarrow>
      p = ''../img/'' @ join_sep es) \<and>
   (fst (AddSection t c fn' e) = Inr q \<longrightarrow>
      q = (if fn' = [] then sectionFileFormat (len (sections e) + 1) else fn')) \<and>
   fst (AddSection ''Section 1'' c1 ''firstsection.xhtml'' (NewEpub t0 g)) =
     Inr ''firstsection.xhtml'' \<and>
   fst (AddSection ''Section 2'' c2 []
          (snd (AddSection ''Section 1'' c1 ''firstsection.xhtml'' (NewEpub t0 g)))) =
     Inr ''section0002.xhtml''"
proof (intro conjI impI)
  assume "fst (AddImage src fn e) = Inr p"
  then show "p = Join [''..'', imageFolderName,
      if fn = [] then imageFileFormat (len (images e) + 1) (Ext src) else fn]"
    by (rule AddImage_success)
next
  assume "fst (AddImage src [] e) = Inr p"
  then have "p = Join [''..'', imageFolderName, imageFileFormat (len (images e) + 1) (Ext src)]"
    using AddImage_success [of src "[]" e p] by simp
  then show "p = ''../img/'' @ imageFileFormat (len (images e) + 1) (Ext src)"
    by (simp only: Join_img_single [OF plain_imageFileFormat])
next
  assume a: "es \<noteq> [] \<and> (\<forall>x \<in> set es. plain_element x) \<and>
    fst (AddImage src (join_sep es) e) = Inr p"
  then have "join_sep es \<noteq> []" by (simp add: join_sep_plain_nonempty)
  with a have "p = Join [''..'', imageFolderName, join_sep es]"
    using AddImage_success [of src "join_sep es" e p] by simp
  moreover from a have "Join [''..'', imageFolderName, join_sep es] = ''../img/'' @ join_sep es"
    by (intro Join_img) simp_all
  ultimately show "p = ''../img/'' @ join_sep es"
    by (rule trans)
next
  assume "fst (AddSection t c fn' e) = Inr q"
  then show "q = (if fn' = [] then sectionFileFormat (len (sections e) + 1) else fn')"
    by (rule AddSection_success)
next
  show "fst (AddSection ''Section 1'' c1 ''firstsection.xhtml'' (NewEpub t0 g)) =
      Inr ''firstsection.xhtml''"
    by (simp add: AddSection_def Let_def sections_NewEpub)
next
  show "fst (AddSection ''Section 2'' c2 []
      (snd (AddSection ''Section 1'' c1 ''firstsection.xhtml'' (NewEpub t0 g)))) =
      Inr ''section0002.xhtml''"
    by (simp add: AddSection_def Let_def sections_NewEpub len_fmupd len_empty
        sectionFileFormat_def fmt04d_2)
qed

theorem add_results_witness:
  "fst (AddImage ''a.png'' ''pics/a.png'' (NewEpub ''t'' ''g'')) = Inr ''../img/pics/a.png'' \<and>
   fst (AddImage ''a.png'' [] (NewEpub ''t'' ''g'')) = Inr ''../img/image0001.png'' \<and>
   fst (AddSection ''S'' ''<p/>'' ''s.xhtml'' (NewEpub ''t'' ''g'')) = Inr ''s.xhtml''"
proof -
  have 1: "fst (AddImage ''a.png'' ''pics/a.png'' (NewEpub ''t'' ''g'')) = Inr ''../img/pics/a.png''"
    by (simp add: AddImage_def Let_def images_NewEpub imageFolderName_def Clean_def
        at_element_end_def)
  have 2: "fst (AddImage ''a.png'' [] (NewEpub ''t'' ''g'')) = Inr ''../img/image0001.png''"
    by (simp add: AddImage_generated images_NewEpub len_empty imageFileFormat_def fmt04d_1 Ext_def)
  have 3: "fst (AddSection ''S'' ''<p/>'' ''s.xhtml'' (NewEpub ''t'' ''g'')) = Inr ''s.xhtml''"
    by (simp add: AddSection_def Let_def sections_NewEpub)
  have 4: "[''pics'', ''a.png''] \<noteq> [] \<and> (\<forall>x \<in> set [''pics'', ''a.png'']. plain_element x)"
    by (simp add: plain_element_def)
  show ?thesis
    using 1 2 3 4
      add_results [of "''a.png''" "''pics/a.png''" "NewEpub ''t'' ''g''" "''../img/pics/a.png''"
        "[''pics'', ''a.png'']" "''S''" "''<p/>''" "''s.xhtml''" "''s.xhtml''"]
    by simp
qed

text \<open>
  The claim as stated fails: for the filename \<^verbatim>\<open>./cover.png\<close> the call succeeds and
  returns \<^verbatim>\<open>../img/cover.png\<close>, which is not \<^verbatim>\<open>../img/\<close> followed by the filename.
\<close>

theorem add_results_counterexample:
  "fst (AddImage ''a.png'' ''./cover.png'' (NewEpub ''t'' ''g'')) = Inr ''../img/cover.png'' \<and>
   ''../img/cover.png'' \<noteq> ''../img/'' @ ''./cover.png''"
  by (simp add: AddImage_def Let_def images_NewEpub imageFolderName_def Clean_def
      at_element_end_def)

text \<open>
  C5. After \<^verbatim>\<open>SetAuthor(v)\<close>, and any further calls among which there is no
  \<^verbatim>\<open>SetAuthor\<close>, \<^verbatim>\<open>Author()\<close> returns \<open>v\<close>; the same holds for \<^verbatim>\<open>SetTitle\<close> and
  \<^verbatim>\<open>Title\<close>, \<^verbatim>\<open>SetLang\<close> and \<^verbatim>\<open>Lang\<close>, \<^verbatim>\<open>SetUUID\<close> and \<^verbatim>\<open>UUID\<close>.
\<close>

theorem setter_getter_round_trip:
  "((\<forall>c \<in> set cs. \<not> is_SetAuthor c) \<longrightarrow> Author (apply_calls cs (SetAuthor v e)) = v) \<and>
   ((\<forall>c \<in> set cs. \<not> is_SetTitle c) \<longrightarrow> Title (apply_calls cs (SetTitle v e)) = v) \<and>
   ((\<forall>c \<in> set cs. \<not> is_SetLang c) \<longrightarrow> Lang (apply_calls cs (SetLang v e)) = v) \<and>
   ((\<forall>c \<in> set cs. \<not> is_SetUUID c) \<longrightarrow> UUID (apply_calls cs (SetUUID v e)) = v)"
  by (simp add: Author_def Title_def Lang_def UUID_def apply_calls_author apply_calls_title
      apply_calls_lang apply_calls_uuid setter_defs)

theorem setter_getter_round_trip_witness:
  "Author (apply_calls [CallAddImage ''a.png'' [], CallSetTitle ''T'']
      (SetAuthor ''Hingle'' (NewEpub ''t'' ''g''))) = ''Hingle'' \<and>
   Title (apply_calls [CallAddSection ''S'' ''<p/>'' [], CallSetAuthor ''A'']
      (SetTitle ''Hingle'' (NewEpub ''t'' ''g''))) = ''Hingle'' \<and>
   Lang (apply_calls [CallSetUUID ''u'', CallSetTitle ''T'']
      (SetLang ''Hingle'' (NewEpub ''t'' ''g''))) = ''Hingle'' \<and>
   UUID (apply_calls [CallSetLang ''fr'', CallAddImage ''a.png'' ''a.png'']
      (SetUUID ''Hingle'' (NewEpub ''t'' ''g''))) = ''Hingle''"
  using setter_getter_round_trip
      [of "[CallAddImage ''a.png'' [], CallSetTitle ''T'']" "''Hingle''" "NewEpub ''t'' ''g''"]
    setter_getter_round_trip
      [of "[CallAddSection ''S'' ''<p/>'' [], CallSetAuthor ''A'']" "''Hingle''" "NewEpub ''t'' ''g''"]
    setter_getter_round_trip
      [of "[CallSetUUID ''u'', CallSetTitle ''T'']" "''Hingle''" "NewEpub ''t'' ''g''"]
    setter_getter_round_trip
      [of "[CallSetLang ''fr'', CallAddImage ''a.png'' ''a.png'']" "''Hingle''" "NewEpub ''t'' ''g''"]
  by simp

text \<open>
  C6. After \<^verbatim>\<open>NewEpub\<close> and any sequence of calls, the title of the Book, the title in
  the package metadata and the title in the toc metadata are all the title set last (the
  one of \<^verbatim>\<open>NewEpub\<close> when no call set one), and the identifier in the package metadata
  and the one in the toc metadata are both \<^verbatim>\<open>urn:uuid:\<close> followed by the identifier set
  last, which is the identifier of the Book: no sequence of calls makes the copies differ.
  On any Book, right after \<^verbatim>\<open>SetTitle\<close> the three titles are the title set, and right after
  \<^verbatim>\<open>SetUUID\<close> the Book holds the identifier set and both documents hold it after
  \<^verbatim>\<open>urn:uuid:\<close>.
\<close>

theorem title_and_uuid_mirrored:
  "Title (apply_calls cs (NewEpub t g)) = last_title t cs \<and>
   pkg_title (pkg (apply_calls cs (NewEpub t g))) = last_title t cs \<and>
   toc_title (toc (apply_calls cs (NewEpub t g))) = last_title t cs \<and>
   UUID (apply_calls cs (NewEpub t g)) = last_uuid g cs \<and>
   pkg_uuid (pkg (apply_calls cs (NewEpub t g))) = ''urn:uuid:'' @ last_uuid g cs \<and>
   toc_uuid (toc (apply_calls cs (NewEpub t g))) = ''urn:uuid:'' @ last_uuid g cs \<and>
   Title (SetTitle t' e) = t' \<and> pkg_title (pkg (SetTitle t' e)) = t' \<and>
   toc_title (toc (SetTitle t' e)) = t' \<and>
   UUID (SetUUID u e) = u \<and> pkg_uuid (pkg (SetUUID u e)) = ''urn:uuid:'' @ u \<and>
   toc_uuid (toc (SetUUID u e)) = ''urn:uuid:'' @ u"
  using mirrored_apply_calls [OF mirrored_NewEpub, of cs t g]
  by (simp add: mirrored_def Title_def UUID_def urnUUIDPrefix_def setter_defs)

text \<open>
  C7. \<^verbatim>\<open>NewEpub(t)\<close> returns a Book whose language is \<^verbatim>\<open>en\<close>, whose identifier is the
  string the UUID generator returned, whose title is \<open>t\<close>, and whose maps of images and of
  sections are empty.
\<close>

theorem NewEpub_defaults:
  "Lang (NewEpub t generated) = ''en'' \<and> UUID (NewEpub t generated) = generated \<and>
   Title (NewEpub t generated) = t \<and> images (NewEpub t generated) = fmempty \<and>
   sections (NewEpub t generated) = fmempty"
  by (simp add: new_defs setter_defs Lang_def UUID_def Title_def defaultEpubLang_def)

text \<open>
  C8. Every successful write gives an archive whose first entry is named \<^verbatim>\<open>mimetype\<close>,
  is stored without compression, and holds the media-type string of the container.
\<close>

theorem write_first_entry:
  "Write env e = Inr archive \<longrightarrow>
   (\<exists>rest. archive =
      \<lparr>entry_name = ''mimetype'', entry_method = Stored,
       entry_content = ''application/epub+zip''\<rparr> # rest)"
  by (auto simp: Write_def mimetypeFilename_def mediaTypeEpub_def
      split: option.splits if_splits)

theorem write_first_entry_witness:
  "Write plain_collaborators book_with_cover =
     Inr [\<lparr>entry_name = ''mimetype'', entry_method = Stored,
            entry_content = ''application/epub+zip''\<rparr>,
          \<lparr>entry_name = ''META-INF/container.xml'', entry_method = Deflated,
            entry_content = ''OEBPS/package.opf''\<rparr>,
          \<lparr>entry_name = ''OEBPS/package.opf'', entry_method = Deflated, entry_content = ''opf''\<rparr>,
          \<lparr>entry_name = ''OEBPS/toc.ncx'', entry_method = Deflated, entry_content = ''ncx''\<rparr>,
          \<lparr>entry_name = ''OEBPS/nav.xhtml'', entry_method = Deflated, entry_content = ''nav''\<rparr>,
          \<lparr>entry_name = ''OEBPS/img/cover.png'', entry_method = Deflated,
            entry_content = ''bytes''\<rparr>,
          \<lparr>entry_name = ''OEBPS/one.xhtml'', entry_method = Deflated, entry_content = ''<p/>''\<rparr>]"
  using write_first_entry [of plain_collaborators book_with_cover]
  by (simp add: Write_def plain_collaborators_def book_with_cover_images book_with_cover_sections
      sorted_list_of_fmap_single mimetypeFilename_def mediaTypeEpub_def xhtml_setTitle_def
      newXhtml_def)

text \<open>
  C9. When the name the generator makes for an empty filename (from the count of the map
  plus one) is already a key, \<^verbatim>\<open>AddImage\<close> and \<^verbatim>\<open>AddSection\<close> return
  \<^verbatim>\<open>ErrFilenameAlreadyUsed\<close> and leave the Book unchanged; when it is not, the call stores
  its resource under exactly that name. No other name is tried.
\<close>

theorem generated_name_taken:
  "(fmlookup (images e) (imageFileFormat (len (images e) + 1) (Ext src)) \<noteq> None \<longrightarrow>
      AddImage src [] e = (Inl ErrFilenameAlreadyUsed, e)) \<and>
   (fmlookup (sections e) (sectionFileFormat (len (sections e) + 1)) \<noteq> None \<longrightarrow>
      AddSection t c [] e = (Inl ErrFilenameAlreadyUsed, e)) \<and>
   (fmlookup (images e) (imageFileFormat (len (images e) + 1) (Ext src)) = None \<longrightarrow>
      AddImage src [] e =
        (Inr (''../img/'' @ imageFileFormat (len (images e) + 1) (Ext src)),
         e\<lparr>images := fmupd (imageFileFormat (len (images e) + 1) (Ext src)) src (images e)\<rparr>)) \<and>
   (fmlookup (sections e) (sectionFileFormat (len (sections e) + 1)) = None \<longrightarrow>
      AddSection t c [] e =
        (Inr (sectionFileFormat (len (sections e) + 1)),
         e\<lparr>sections := fmupd (sectionFileFormat (len (sections e) + 1))
              (xhtml_setTitle t (newXhtml c)) (sections e)\<rparr>))"
  using AddImage_generated [of e src] AddSection_generated [of e t c]
  by (simp add: AddImage_def AddSection_def Let_def del: Join.simps)

theorem generated_name_taken_witness:
  "fmlookup (images book_with_second_names) ''image0002.png'' \<noteq> None \<and>
   AddImage ''b.png'' [] book_with_second_names =
     (Inl ErrFilenameAlreadyUsed, book_with_second_names) \<and>
   fmlookup (sections book_with_second_names) ''section0002.xhtml'' \<noteq> None \<and>
   AddSection ''Two'' ''<p/>'' [] book_with_second_names =
     (Inl ErrFilenameAlreadyUsed, book_with_second_names) \<and>
   fmlookup (images book_with_cover) ''image0002.png'' = None \<and>
   fst (AddImage ''b.png'' [] book_with_cover) = Inr ''../img/image0002.png'' \<and>
   fmlookup (sections book_with_cover) ''section0002.xhtml'' = None \<and>
   fst (AddSection ''Two'' ''<p/>'' [] book_with_cover) = Inr ''section0002.xhtml''"
  using generated_name_taken [of book_with_second_names "''b.png''" "''Two''" "''<p/>''"]
    generated_name_taken [of book_with_cover "''b.png''" "''Two''" "''<p/>''"]
  by (simp add: book_with_second_names_images book_with_second_names_sections
      book_with_cover_images book_with_cover_sections
      len_fmupd len_empty imageFileFormat_def sectionFileFormat_def fmt04d_2 Ext_def)

text \<open>
  C10. \<^verbatim>\<open>SetAuthor\<close> changes the author of the Book and the author in the package
  metadata and nothing else, \<^verbatim>\<open>SetLang\<close> the language of the Book and the language in
  the package metadata and nothing else: both leave the toc as it was. \<^verbatim>\<open>SetTitle\<close> and
  \<^verbatim>\<open>SetUUID\<close> set the title and the identifier of the toc. No setter changes the map of
  images or the map of sections.
\<close>

theorem setters_frame:
  "toc (SetAuthor a e) = toc e \<and> toc (SetLang l e) = toc e \<and>
   (SetAuthor a e)\<lparr>author := author e, pkg := pkg e\<rparr> = e \<and>
   (SetLang l e)\<lparr>lang := lang e, pkg := pkg e\<rparr> = e \<and>
   (pkg (SetAuthor a e))\<lparr>pkg_author := pkg_author (pkg e)\<rparr> = pkg e \<and>
   (pkg (SetLang l e))\<lparr>pkg_lang := pkg_lang (pkg e)\<rparr> = pkg e \<and>
   author (SetAuthor a e) = a \<and> pkg_author (pkg (SetAuthor a e)) = a \<and>
   lang (SetLang l e) = l \<and> pkg_lang (pkg (SetLang l e)) = l \<and>
   toc (SetTitle t e) = (toc e)\<lparr>toc_title := t\<rparr> \<and>
   toc (SetUUID u e) = (toc e)\<lparr>toc_uuid := ''urn:uuid:'' @ u\<rparr> \<and>
   images (SetAuthor a e) = images e \<and> sections (SetAuthor a e) = sections e \<and>
   images (SetLang l e) = images e \<and> sections (SetLang l e) = sections e \<and>
   images (SetTitle t e) = images e \<and> sections (SetTitle t e) = sections e \<and>
   images (SetUUID u e) = images e \<and> sections (SetUUID u e) = sections e"
  by (simp add: setter_defs urnUUIDPrefix_def)

end
